theory Spec2Isabelle
  imports Main
begin

section \<open>JavaScript objects\<close>

text \<open>
  The hooks keep their data in plain JavaScript objects used as dictionaries with string
  keys. An object is modelled by the list of its own properties in insertion order; a
  well-formed object has no key twice. Spreading an object into a fresh literal
  (\<^verbatim>\<open>{ ...prev }\<close>) makes a shallow copy, which in a model of values is the value
  itself; spreading a second object after it assigns that object's properties one by one.
\<close>

type_synonym 'v obj = "(string \<times> 'v) list"

definition obj_get :: "'v obj \<Rightarrow> string \<Rightarrow> 'v option" where
  "obj_get ob k = map_of ob k"

primrec obj_put :: "string \<Rightarrow> 'v \<Rightarrow> 'v obj \<Rightarrow> 'v obj" where
  "obj_put k v [] = [(k, v)]"
| "obj_put k v (p # ps) = (if fst p = k then (k, v) # ps else p # obj_put k v ps)"

definition obj_delete :: "string \<Rightarrow> 'v obj \<Rightarrow> 'v obj" where
  "obj_delete k ob = filter (\<lambda>p. fst p \<noteq> k) ob"

text \<open>
  Enumeration order of own properties: keys that are array indices (canonical decimal
  strings below \<open>2^32 - 1\<close>) come first in ascending numeric order, the other keys follow
  in insertion order.
\<close>

definition is_digit :: "char \<Rightarrow> bool" where
  "is_digit c = (48 \<le> (of_char c :: nat) \<and> (of_char c :: nat) \<le> 57)"

definition digit_val :: "char \<Rightarrow> nat" where
  "digit_val c = of_char c - 48"

definition decimal :: "string \<Rightarrow> nat" where
  "decimal s = fold (\<lambda>c n. 10 * n + digit_val c) s 0"

definition array_index :: "string \<Rightarrow> nat option" where
  "array_index s =
     (if s \<noteq> [] \<and> list_all is_digit s \<and> (s = ''0'' \<or> hd s \<noteq> CHR ''0'')
         \<and> decimal s < 4294967295
      then Some (decimal s) else None)"

definition is_index_key :: "string \<Rightarrow> bool" where
  "is_index_key k = (array_index k \<noteq> None)"

definition own_entries :: "'v obj \<Rightarrow> 'v obj" where
  "own_entries ob =
     sort_key (\<lambda>p. case array_index (fst p) of Some n \<Rightarrow> n | None \<Rightarrow> 0)
       (filter (\<lambda>p. is_index_key (fst p)) ob)
     @ filter (\<lambda>p. \<not> is_index_key (fst p)) ob"

definition Object_values :: "'v obj \<Rightarrow> 'v list" where
  "Object_values ob = map snd (own_entries ob)"

definition Object_fromEntries :: "(string \<times> 'v) list \<Rightarrow> 'v obj" where
  "Object_fromEntries es = fold (\<lambda>p. obj_put (fst p) (snd p)) es []"

definition obj_assign :: "'v obj \<Rightarrow> 'v obj \<Rightarrow> 'v obj" where
  \<comment> \<open>\<^verbatim>\<open>{ ...target, ...src }\<close>\<close>
  "obj_assign target src = fold (\<lambda>p. obj_put (fst p) (snd p)) (own_entries src) target"

section \<open>Entities and the keyed index store (\<^verbatim>\<open>useIndex\<close>)\<close>

text \<open>
  An entity is a record with an identity field \<^verbatim>\<open>id\<close>, which may be missing
  (\<^verbatim>\<open>undefined\<close>), and further fields the hooks never inspect. Used as a property key,
  a missing identity becomes the string \<^verbatim>\<open>undefined\<close>.
\<close>

record 'a entity =
  id_field :: "string option"
  attrs :: 'a

definition key_of :: "'a entity \<Rightarrow> string" where
  "key_of data = (case id_field data of None \<Rightarrow> ''undefined'' | Some s \<Rightarrow> s)"

type_synonym 'a index = "'a entity obj"

definition useIndex_array :: "'a index \<Rightarrow> 'a entity list" where
  "useIndex_array index = Object_values index"

definition useIndex_set :: "'a entity list \<Rightarrow> 'a index \<Rightarrow> 'a index" where
  "useIndex_set params prev =
     obj_assign prev (Object_fromEntries (map (\<lambda>data. (key_of data, data)) params))"

text \<open>
  In \<^verbatim>\<open>remove\<close> the test \<^verbatim>\<open>newState[id]\<close> asks for a truthy value under the key; the
  values of an index are entities, that is objects, and every object is truthy.
\<close>

primrec remove_loop :: "'a entity list \<Rightarrow> 'a index \<Rightarrow> 'a index" where
  "remove_loop [] newState = newState"
| "remove_loop (data # rest) newState =
     remove_loop rest
       (if obj_get newState (key_of data) \<noteq> None
        then obj_delete (key_of data) newState else newState)"

definition useIndex_remove :: "'a entity list \<Rightarrow> 'a index \<Rightarrow> 'a index" where
  "useIndex_remove params prev = remove_loop params prev"

definition setIndex :: "'a index \<Rightarrow> 'a index \<Rightarrow> 'a index" where
  \<comment> \<open>the state setter called with a value: the previous index is discarded\<close>
  "setIndex new prev = new"

text \<open>
  An index in the sense of the data model: no key twice, and every entity is stored
  under the key its own identity gives.
\<close>

definition wf_index :: "'a index \<Rightarrow> bool" where
  "wf_index index = (distinct (map fst index) \<and> list_all (\<lambda>p. key_of (snd p) = fst p) index)"

section \<open>Single-flight guards (\<^verbatim>\<open>useAction\<close>, \<^verbatim>\<open>useMethod\<close>)\<close>

text \<open>
  A guard is a hook holding three pieces of state; every render builds a \<^verbatim>\<open>trigger\<close>
  closure over the values the state has in that render. \<open>useAction_trigger\<close> and
  \<open>useMethod_trigger\<close> below are a call through the closure of the current render, so
  that \<open>loading s\<close> is both the flag of the guard and the flag the closure reads. (A
  call through the closure of another render is described further down, by the two
  phases of a call.) The wrapped asynchronous operation is a function of its
  payload and of the world outside the hook (whatever the operation reads and changes);
  it gives back the way its promise settles, \<open>Inl\<close> for a rejection and \<open>Inr\<close> for a
  value, and the new world. The outcome of \<^verbatim>\<open>trigger\<close> is the way its own promise settles:
  \<open>Inl e\<close> when \<open>e\<close> is raised to the caller, \<open>Inr None\<close> for \<^verbatim>\<open>undefined\<close>,
  \<open>Inr (Some r)\<close> for a value. The state returned is the one after every state setter
  the call has issued. In these two functions a call is followed from its start to the
  settling of its promise, with no other call while it is suspended.
\<close>

record ('e, 'r) guard_state =
  loading :: bool
  error :: "'e option"
  result :: "'r option"

record ('e, 'r, 'v) action_state = "('e, 'r) guard_state" +
  defaults :: "'v obj"

text \<open>The initial state of each guard, as the \<^verbatim>\<open>useState\<close> calls give it.\<close>

definition useAction_init :: "'v obj option \<Rightarrow> ('e, 'r, 'v) action_state" where
  \<comment> \<open>\<^verbatim>\<open>props.defaults ?? {}\<close>\<close>
  "useAction_init props_defaults =
     \<lparr>loading = False, error = None, result = None,
      defaults = (case props_defaults of None \<Rightarrow> [] | Some d \<Rightarrow> d)\<rparr>"

definition useMethod_init :: "('e, 'r) guard_state" where
  "useMethod_init = \<lparr>loading = False, error = None, result = None\<rparr>"

text \<open>The state setters issued before the wrapped operation is called.\<close>

definition useAction_before :: "('e, 'r, 'v) action_state \<Rightarrow> ('e, 'r, 'v) action_state" where
  "useAction_before s = s\<lparr>loading := True\<rparr>"

definition useMethod_before :: "('e, 'r) guard_state \<Rightarrow> ('e, 'r) guard_state" where
  "useMethod_before s = s\<lparr>loading := True, error := None\<rparr>"

text \<open>
  \<^verbatim>\<open>useAction\<close>: the payload is \<^verbatim>\<open>{ ...props, ...defaults }\<close>. The optional callback
  \<^verbatim>\<open>onSuccess\<close> runs inside the \<^verbatim>\<open>try\<close> block, so what it raises (\<open>Some err\<close>) is caught
  like a failure of the operation. The \<^verbatim>\<open>catch\<close> block stores the error and falls through
  to the end of the function.
\<close>

definition useAction_trigger ::
  "('v obj \<Rightarrow> 'w \<Rightarrow> ('e + 'r) \<times> 'w) \<Rightarrow> ('r \<Rightarrow> 'w \<Rightarrow> 'e option \<times> 'w) option \<Rightarrow> 'v obj \<Rightarrow>
     ('e, 'r, 'v) action_state \<times> 'w \<Rightarrow> ('e + 'r option) \<times> ('e, 'r, 'v) action_state \<times> 'w" where
  "useAction_trigger action onSuccess props = (\<lambda>(s, w).
     if loading s then (Inr None, s, w)
     else
       let s1 = useAction_before s in
       case action (obj_assign props (defaults s)) w of
         (Inr res, w1) \<Rightarrow>
           let s2 = s1\<lparr>result := Some res\<rparr> in
           (case onSuccess of
              None \<Rightarrow> (Inr (Some res), s2\<lparr>loading := False\<rparr>, w1)
            | Some callback \<Rightarrow>
                (case callback res w1 of
                   (None, w2) \<Rightarrow> (Inr (Some res), s2\<lparr>loading := False\<rparr>, w2)
                 | (Some err, w2) \<Rightarrow> (Inr None, s2\<lparr>error := Some err, loading := False\<rparr>, w2)))
       | (Inl err, w1) \<Rightarrow> (Inr None, s1\<lparr>error := Some err, loading := False\<rparr>, w1))"

text \<open>
  \<^verbatim>\<open>useMethod\<close>: the \<^verbatim>\<open>catch\<close> block logs to the console (not modelled), stores the
  error and raises it again.
\<close>

definition useMethod_trigger ::
  "('p \<Rightarrow> 'w \<Rightarrow> ('e + 'r) \<times> 'w) \<Rightarrow> 'p \<Rightarrow>
     ('e, 'r) guard_state \<times> 'w \<Rightarrow> ('e + 'r option) \<times> ('e, 'r) guard_state \<times> 'w" where
  "useMethod_trigger method props = (\<lambda>(s, w).
     if loading s then (Inr None, s, w)
     else
       let s1 = useMethod_before s in
       case method props w of
         (Inr data, w1) \<Rightarrow> (Inr (Some data), s1\<lparr>result := Some data, loading := False\<rparr>, w1)
       | (Inl err, w1) \<Rightarrow> (Inl err, s1\<lparr>error := Some err, loading := False\<rparr>, w1))"

text \<open>
  To speak about the calls an operation receives, it is wrapped so that every invocation
  appends its payload to a log kept in the world; a callback is lifted to the same world
  without touching the log.
\<close>

definition recorded :: "('p \<Rightarrow> 'w \<Rightarrow> 'x \<times> 'w) \<Rightarrow> 'p \<Rightarrow> 'p list \<times> 'w \<Rightarrow> 'x \<times> 'p list \<times> 'w" where
  "recorded f p = (\<lambda>(log, w). case f p w of (x, w1) \<Rightarrow> (x, log @ [p], w1))"

definition unrecorded :: "('r \<Rightarrow> 'w \<Rightarrow> 'x \<times> 'w) \<Rightarrow> 'r \<Rightarrow> 'l \<times> 'w \<Rightarrow> 'x \<times> 'l \<times> 'w" where
  "unrecorded f r = (\<lambda>(log, w). case f r w of (x, w1) \<Rightarrow> (x, log, w1))"

text \<open>
  The two phases of a call. \<^verbatim>\<open>trigger\<close> is an asynchronous function: it runs up to the
  \<^verbatim>\<open>await\<close> (it tests the flag, issues the first state setters and calls the operation),
  is suspended while the operation is in flight, and runs the rest when the promise of
  the operation settles. The closure called belongs to a render \<open>c\<close>, which need not be
  the latest one: the flag tested (and, in \<^verbatim>\<open>useAction\<close>, the defaults merged) are those
  of \<open>c\<close>, while the state setters act on the state \<open>s\<close> the guard has when they are
  issued. The first phase gives \<open>Dropped\<close> when the call returned at once, and otherwise
  \<open>Pending\<close> with the way the promise of the operation is going to settle.
\<close>

datatype ('e, 'r) started = Dropped | Pending "'e + 'r"

definition useAction_start ::
  "('v obj \<Rightarrow> 'w \<Rightarrow> ('e + 'r) \<times> 'w) \<Rightarrow> 'v obj \<Rightarrow> ('e, 'r, 'v) action_state \<Rightarrow>
     ('e, 'r, 'v) action_state \<times> 'w \<Rightarrow> ('e, 'r) started \<times> ('e, 'r, 'v) action_state \<times> 'w" where
  "useAction_start action props c = (\<lambda>(s, w).
     if loading c then (Dropped, s, w)
     else
       case action (obj_assign props (defaults c)) w of
         (out, w1) \<Rightarrow> (Pending out, useAction_before s, w1))"

definition useAction_finish ::
  "('r \<Rightarrow> 'w \<Rightarrow> 'e option \<times> 'w) option \<Rightarrow> ('e, 'r) started \<Rightarrow>
     ('e, 'r, 'v) action_state \<times> 'w \<Rightarrow> ('e + 'r option) \<times> ('e, 'r, 'v) action_state \<times> 'w" where
  "useAction_finish onSuccess pending = (\<lambda>(s, w).
     case pending of
       Dropped \<Rightarrow> (Inr None, s, w)
     | Pending (Inr res) \<Rightarrow>
         let s2 = s\<lparr>result := Some res\<rparr> in
         (case onSuccess of
            None \<Rightarrow> (Inr (Some res), s2\<lparr>loading := False\<rparr>, w)
          | Some callback \<Rightarrow>
              (case callback res w of
                 (None, w2) \<Rightarrow> (Inr (Some res), s2\<lparr>loading := False\<rparr>, w2)
               | (Some err, w2) \<Rightarrow> (Inr None, s2\<lparr>error := Some err, loading := False\<rparr>, w2)))
     | Pending (Inl err) \<Rightarrow> (Inr None, s\<lparr>error := Some err, loading := False\<rparr>, w))"

definition useMethod_start ::
  "('p \<Rightarrow> 'w \<Rightarrow> ('e + 'r) \<times> 'w) \<Rightarrow> 'p \<Rightarrow> ('e, 'r) guard_state \<Rightarrow>
     ('e, 'r) guard_state \<times> 'w \<Rightarrow> ('e, 'r) started \<times> ('e, 'r) guard_state \<times> 'w" where
  "useMethod_start method props c = (\<lambda>(s, w).
     if loading c then (Dropped, s, w)
     else
       case method props w of
         (out, w1) \<Rightarrow> (Pending out, useMethod_before s, w1))"

definition useMethod_finish ::
  "('e, 'r) started \<Rightarrow>
     ('e, 'r) guard_state \<times> 'w \<Rightarrow> ('e + 'r option) \<times> ('e, 'r) guard_state \<times> 'w" where
  "useMethod_finish pending = (\<lambda>(s, w).
     case pending of
       Dropped \<Rightarrow> (Inr None, s, w)
     | Pending (Inr data) \<Rightarrow> (Inr (Some data), s\<lparr>result := Some data, loading := False\<rparr>, w)
     | Pending (Inl err) \<Rightarrow> (Inl err, s\<lparr>error := Some err, loading := False\<rparr>, w))"

section \<open>The table layer (\<^verbatim>\<open>database\<close>, \<^verbatim>\<open>useTableProvider\<close>)\<close>

text \<open>
  The payload of a backend call is an object; the only value the table layer puts into
  it itself is the table name, a string. The backend is the record of the five operations
  of the CRUD contract. \<^verbatim>\<open>find\<close>, \<^verbatim>\<open>create\<close>, \<^verbatim>\<open>update\<close> and \<^verbatim>\<open>remove\<close> resolve with an
  entity or with nothing (\<open>None\<close> for \<^verbatim>\<open>null\<close> or \<^verbatim>\<open>undefined\<close>); \<^verbatim>\<open>list\<close> resolves with
  an array of entities (\<open>Some\<close>) or with something that is not an array (\<open>None\<close>).
\<close>

datatype 'v jsvalue = JString string | JOther 'v

type_synonym 'v payload = "'v jsvalue obj"

record ('v, 'w, 'e, 'a) CRUD =
  crud_find :: "'v payload \<Rightarrow> 'w \<Rightarrow> ('e + 'a entity option) \<times> 'w"
  crud_create :: "'v payload \<Rightarrow> 'w \<Rightarrow> ('e + 'a entity option) \<times> 'w"
  crud_update :: "'v payload \<Rightarrow> 'w \<Rightarrow> ('e + 'a entity option) \<times> 'w"
  crud_remove :: "'v payload \<Rightarrow> 'w \<Rightarrow> ('e + 'a entity option) \<times> 'w"
  crud_list :: "'v payload \<Rightarrow> 'w \<Rightarrow> ('e + 'a entity list option) \<times> 'w"

definition with_table :: "'v payload \<Rightarrow> string \<Rightarrow> 'v payload" where
  \<comment> \<open>\<^verbatim>\<open>{ ...props, table }\<close>\<close>
  "with_table props table = obj_assign props [(''table'', JString table)]"

definition truthy_id :: "'a entity \<Rightarrow> bool" where
  \<comment> \<open>the test \<^verbatim>\<open>result.id\<close>: a missing or empty identity is falsy\<close>
  "truthy_id res = (case id_field res of None \<Rightarrow> False | Some i \<Rightarrow> i \<noteq> [])"

text \<open>
  The wrapped methods act on the index and on the world of the backend. A rejection of
  the awaited backend call leaves the function before the index is touched.
\<close>

definition createWithIndex ::
  "('v, 'w, 'e, 'a) CRUD \<Rightarrow> string \<Rightarrow> 'v payload \<Rightarrow> 'a index \<times> 'w \<Rightarrow>
     ('e + 'a entity option) \<times> 'a index \<times> 'w" where
  "createWithIndex crud table props = (\<lambda>(index, w).
     case crud_create crud (with_table props table) w of
       (Inl err, w1) \<Rightarrow> (Inl err, index, w1)
     | (Inr res, w1) \<Rightarrow>
         (Inr res,
          (case res of
             None \<Rightarrow> index
           | Some r \<Rightarrow> if truthy_id r then useIndex_set [r] index else index),
          w1))"

definition updateWithIndex ::
  "('v, 'w, 'e, 'a) CRUD \<Rightarrow> string \<Rightarrow> 'v payload \<Rightarrow> 'a index \<times> 'w \<Rightarrow>
     ('e + 'a entity option) \<times> 'a index \<times> 'w" where
  "updateWithIndex crud table props = (\<lambda>(index, w).
     case crud_update crud (with_table props table) w of
       (Inl err, w1) \<Rightarrow> (Inl err, index, w1)
     | (Inr res, w1) \<Rightarrow>
         (Inr res,
          (case res of
             None \<Rightarrow> index
           | Some r \<Rightarrow> if truthy_id r then useIndex_set [r] index else index),
          w1))"

definition removeWithIndex ::
  "('v, 'w, 'e, 'a) CRUD \<Rightarrow> string \<Rightarrow> 'v payload \<Rightarrow> 'a index \<times> 'w \<Rightarrow>
     ('e + 'a entity option) \<times> 'a index \<times> 'w" where
  "removeWithIndex crud table props = (\<lambda>(index, w).
     case crud_remove crud (with_table props table) w of
       (Inl err, w1) \<Rightarrow> (Inl err, index, w1)
     | (Inr res, w1) \<Rightarrow>
         (Inr res,
          (case res of
             None \<Rightarrow> index
           | Some r \<Rightarrow> if truthy_id r then useIndex_remove [r] index else index),
          w1))"

definition listWithIndex ::
  "('v, 'w, 'e, 'a) CRUD \<Rightarrow> string \<Rightarrow> 'v payload \<Rightarrow> 'a index \<times> 'w \<Rightarrow>
     ('e + 'a entity list option) \<times> 'a index \<times> 'w" where
  "listWithIndex crud table props = (\<lambda>(index, w).
     case crud_list crud (with_table props table) w of
       (Inl err, w1) \<Rightarrow> (Inl err, index, w1)
     | (Inr res, w1) \<Rightarrow>
         (Inr res,
          (case res of
             None \<Rightarrow> index
           | Some items \<Rightarrow>
               setIndex (Object_fromEntries (map (\<lambda>item. (key_of item, item)) items)) index),
          w1))"

text \<open>
  A table handle: the index and one \<^verbatim>\<open>useMethod\<close> guard for each operation. The trigger
  of an operation runs its guard on the wrapped method; the guards of the other
  operations are not touched.
\<close>

record ('e, 'a) table_state =
  t_index :: "'a index"
  t_find :: "('e, 'a entity option) guard_state"
  t_create :: "('e, 'a entity option) guard_state"
  t_update :: "('e, 'a entity option) guard_state"
  t_remove :: "('e, 'a entity option) guard_state"
  t_list :: "('e, 'a entity list option) guard_state"

definition useTableProvider_init :: "'a index option \<Rightarrow> ('e, 'a) table_state" where
  \<comment> \<open>\<^verbatim>\<open>useIndex({ ...(asAbove ?? {}) })\<close> and five fresh guards\<close>
  "useTableProvider_init asAbove =
     \<lparr>t_index = (case asAbove of None \<Rightarrow> [] | Some initial \<Rightarrow> initial),
      t_find = useMethod_init, t_create = useMethod_init, t_update = useMethod_init,
      t_remove = useMethod_init, t_list = useMethod_init\<rparr>"

definition table_array :: "('e, 'a) table_state \<Rightarrow> 'a entity list" where
  "table_array t = Object_values (t_index t)"

definition find_trigger ::
  "('v, 'w, 'e, 'a) CRUD \<Rightarrow> string \<Rightarrow> 'v payload \<Rightarrow> ('e, 'a) table_state \<times> 'w \<Rightarrow>
     ('e + 'a entity option option) \<times> ('e, 'a) table_state \<times> 'w" where
  "find_trigger crud table props = (\<lambda>(t, w).
     case useMethod_trigger (\<lambda>props. crud_find crud (with_table props table)) props (t_find t, w) of
       (out, g, w1) \<Rightarrow> (out, t\<lparr>t_find := g\<rparr>, w1))"

definition create_trigger ::
  "('v, 'w, 'e, 'a) CRUD \<Rightarrow> string \<Rightarrow> 'v payload \<Rightarrow> ('e, 'a) table_state \<times> 'w \<Rightarrow>
     ('e + 'a entity option option) \<times> ('e, 'a) table_state \<times> 'w" where
  "create_trigger crud table props = (\<lambda>(t, w).
     case useMethod_trigger (createWithIndex crud table) props (t_create t, t_index t, w) of
       (out, g, index, w1) \<Rightarrow> (out, t\<lparr>t_index := index, t_create := g\<rparr>, w1))"

definition update_trigger ::
  "('v, 'w, 'e, 'a) CRUD \<Rightarrow> string \<Rightarrow> 'v payload \<Rightarrow> ('e, 'a) table_state \<times> 'w \<Rightarrow>
     ('e + 'a entity option option) \<times> ('e, 'a) table_state \<times> 'w" where
  "update_trigger crud table props = (\<lambda>(t, w).
     case useMethod_trigger (updateWithIndex crud table) props (t_update t, t_index t, w) of
       (out, g, index, w1) \<Rightarrow> (out, t\<lparr>t_index := index, t_update := g\<rparr>, w1))"

definition remove_trigger ::
  "('v, 'w, 'e, 'a) CRUD \<Rightarrow> string \<Rightarrow> 'v payload \<Rightarrow> ('e, 'a) table_state \<times> 'w \<Rightarrow>
     ('e + 'a entity option option) \<times> ('e, 'a) table_state \<times> 'w" where
  "remove_trigger crud table props = (\<lambda>(t, w).
     case useMethod_trigger (removeWithIndex crud table) props (t_remove t, t_index t, w) of
       (out, g, index, w1) \<Rightarrow> (out, t\<lparr>t_index := index, t_remove := g\<rparr>, w1))"

definition list_trigger ::
  "('v, 'w, 'e, 'a) CRUD \<Rightarrow> string \<Rightarrow> 'v payload \<Rightarrow> ('e, 'a) table_state \<times> 'w \<Rightarrow>
     ('e + 'a entity list option option) \<times> ('e, 'a) table_state \<times> 'w" where
  "list_trigger crud table props = (\<lambda>(t, w).
     case useMethod_trigger (listWithIndex crud table) props (t_list t, t_index t, w) of
       (out, g, index, w1) \<Rightarrow> (out, t\<lparr>t_index := index, t_list := g\<rparr>, w1))"

text \<open>The backend with every operation logging the payload it is called with.\<close>

definition recorded_CRUD ::
  "('v, 'w, 'e, 'a) CRUD \<Rightarrow> ('v, 'v payload list \<times> 'w, 'e, 'a) CRUD" where
  "recorded_CRUD crud =
     \<lparr>crud_find = recorded (crud_find crud),
      crud_create = recorded (crud_create crud),
      crud_update = recorded (crud_update crud),
      crud_remove = recorded (crud_remove crud),
      crud_list = recorded (crud_list crud)\<rparr>"

section \<open>Scoped injection (\<^verbatim>\<open>createContextFromHook\<close>, \<^verbatim>\<open>useFields\<close>, \<^verbatim>\<open>useForm\<close>)\<close>

text \<open>
  A component sees the context providers that enclose it, nearest first; each is a context
  (an identity made by \<^verbatim>\<open>createContext\<close>) with the value it publishes, which may be
  \<^verbatim>\<open>undefined\<close> (\<open>None\<close>). \<^verbatim>\<open>React.useContext\<close> gives the value of the nearest provider
  of the context asked for, and the default of the context when there is none. Every
  context of this library is created with the default \<^verbatim>\<open>undefined\<close>. An accessor returns
  a value (\<open>Inr\<close>) or raises an \<^verbatim>\<open>Error\<close> with a message (\<open>Inl\<close>).
\<close>

type_synonym ('c, 'x) providers = "('c \<times> 'x option) list"

definition React_useContext :: "'c \<Rightarrow> 'x option \<Rightarrow> ('c, 'x) providers \<Rightarrow> 'x option" where
  "React_useContext Context defaultValue enclosing =
     (case map_of enclosing Context of None \<Rightarrow> defaultValue | Some v \<Rightarrow> v)"

definition createContextFromHook_useContext ::
  "'c \<Rightarrow> ('c, 'x) providers \<Rightarrow> string + 'x option" where
  \<comment> \<open>the second component of the pair \<^verbatim>\<open>createContextFromHook\<close> returns\<close>
  "createContextFromHook_useContext Context enclosing =
     Inr (React_useContext Context None enclosing)"

definition useFields :: "'c \<Rightarrow> ('c, 'x) providers \<Rightarrow> string + 'x option" where
  "useFields Context enclosing =
     (case React_useContext Context None enclosing of
        None \<Rightarrow> Inl ''useFields must be used within a FieldsProvider''
      | Some context \<Rightarrow> Inr (Some context))"

definition useForm :: "'c \<Rightarrow> ('c, 'x) providers \<Rightarrow> string + 'x option" where
  "useForm FormReactContext enclosing =
     (case React_useContext FormReactContext None enclosing of
        None \<Rightarrow> Inl ''useForm must be used within a FormProvider''
      | Some context \<Rightarrow> Inr (Some context))"

section \<open>Properties of objects\<close>

lemma map_of_obj_put: "map_of (obj_put k v ob) = (map_of ob)(k \<mapsto> v)"
  by (induction ob) auto

lemma keys_obj_put: "fst ` set (obj_put k v ob) = insert k (fst ` set ob)"
  by (induction ob) auto

lemma distinct_obj_put:
  "distinct (map fst ob) \<Longrightarrow> distinct (map fst (obj_put k v ob))"
  by (induction ob) (auto simp: keys_obj_put)

lemma length_obj_put:
  "length (obj_put k v ob) = (if k \<in> fst ` set ob then length ob else Suc (length ob))"
  by (induction ob) auto

lemma set_obj_put:
  "distinct (map fst ob) \<Longrightarrow> set (obj_put k v ob) = insert (k, v) {p \<in> set ob. fst p \<noteq> k}"
  by (induction ob) (auto simp: rev_image_eqI)

lemma obj_put_twice: "obj_put k v (obj_put k w ob) = obj_put k v ob"
  by (induction ob) auto

lemma obj_delete_absent: "k \<notin> fst ` set ob \<Longrightarrow> obj_delete k ob = ob"
  unfolding obj_delete_def by (induction ob) auto

lemma obj_get_None_iff: "obj_get ob k = None \<longleftrightarrow> k \<notin> fst ` set ob"
  by (simp add: obj_get_def map_of_eq_None_iff)

lemma map_of_fold_put:
  "map_of (fold (\<lambda>p. obj_put (fst p) (snd p)) es acc) = map_of acc ++ map_of (rev es)"
  by (induction es arbitrary: acc) (auto simp: map_of_obj_put)

lemma keys_fold_put:
  "fst ` set (fold (\<lambda>p. obj_put (fst p) (snd p)) es acc) = fst ` set acc \<union> fst ` set es"
  by (induction es arbitrary: acc) (auto simp: keys_obj_put)

lemma distinct_fold_put:
  "distinct (map fst acc) \<Longrightarrow> distinct (map fst (fold (\<lambda>p. obj_put (fst p) (snd p)) es acc))"
  by (induction es arbitrary: acc) (auto simp: distinct_obj_put)

lemma distinct_fromEntries: "distinct (map fst (Object_fromEntries es))"
  unfolding Object_fromEntries_def by (rule distinct_fold_put) simp

lemma set_own_entries: "set (own_entries ob) = set ob"
  unfolding own_entries_def by auto

lemma length_own_entries: "length (own_entries ob) = length ob"
  unfolding own_entries_def by (simp add: sum_length_filter_compl)

lemma set_Object_values: "set (Object_values ob) = snd ` set ob"
  by (simp add: Object_values_def set_own_entries)

lemma length_Object_values: "length (Object_values ob) = length ob"
  by (simp add: Object_values_def length_own_entries)

lemma distinct_own_entries:
  assumes "distinct (map fst ob)"
  shows "distinct (map fst (own_entries ob))"
proof -
  from assms have "distinct ob" and "inj_on fst (set ob)"
    by (simp_all add: distinct_map)
  then show ?thesis
    unfolding own_entries_def by (auto simp: distinct_map inj_on_def)
qed

lemma map_of_own_entries:
  assumes "distinct (map fst ob)"
  shows "map_of (rev (own_entries ob)) = map_of ob"
proof -
  have "distinct (map fst (rev (own_entries ob)))"
    using distinct_own_entries [OF assms] by (simp add: rev_map [symmetric])
  moreover have "set (rev (own_entries ob)) = set ob"
    by (simp add: set_own_entries)
  ultimately show ?thesis
    using assms by (simp add: map_of_inject_set)
qed

lemma own_entries_single: "own_entries [p] = [p]"
  by (simp add: own_entries_def)

lemma map_of_obj_assign:
  assumes "distinct (map fst src)"
  shows "map_of (obj_assign target src) = map_of target ++ map_of src"
  by (simp add: obj_assign_def map_of_fold_put map_of_own_entries [OF assms])

lemma map_of_fromEntries: "map_of (Object_fromEntries es) = map_of (rev es)"
  by (simp add: Object_fromEntries_def map_of_fold_put)

lemma obj_get_delete: "obj_get (obj_delete k ob) k = None"
  by (auto simp: obj_get_None_iff obj_delete_def)

section \<open>Properties of the index store\<close>

lemma key_of_same: "id_field e' = id_field e \<Longrightarrow> key_of e' = key_of e"
  by (simp add: key_of_def)

lemma useIndex_set_single: "useIndex_set [e] index = obj_put (key_of e) e index"
  by (simp add: useIndex_set_def obj_assign_def Object_fromEntries_def own_entries_single)

lemma useIndex_set_pair:
  "key_of e' = key_of e \<Longrightarrow> useIndex_set [e, e'] index = obj_put (key_of e) e' index"
  by (simp add: useIndex_set_def obj_assign_def Object_fromEntries_def own_entries_single)

lemma obj_get_useIndex_set:
  "obj_get (useIndex_set params index) k =
     (case map_of (rev (map (\<lambda>data. (key_of data, data)) params)) k of
        Some d \<Rightarrow> Some d | None \<Rightarrow> obj_get index k)"
  by (simp add: useIndex_set_def obj_get_def map_of_obj_assign distinct_fromEntries
      map_of_fromEntries map_add_def split: option.splits)

lemma last_argument_wins:
  assumes "\<forall>d \<in> set ys. key_of d \<noteq> key_of e'"
  shows "obj_get (useIndex_set (xs @ e' # ys) index) (key_of e') = Some e'"
proof -
  have "map_of (rev (map (\<lambda>data. (key_of data, data)) ys)) (key_of e') = None"
    using assms by (force simp: map_of_eq_None_iff)
  then show ?thesis
    by (simp add: obj_get_useIndex_set rev_map [symmetric] map_add_def split: option.splits)
qed

lemma not_in_array_after_put:
  assumes wf: "wf_index index" and ne: "e \<noteq> e'"
  shows "e \<notin> set (useIndex_array (obj_put (key_of e) e' index))"
proof
  assume "e \<in> set (useIndex_array (obj_put (key_of e) e' index))"
  then obtain k where "(k, e) \<in> set (obj_put (key_of e) e' index)"
    by (auto simp: useIndex_array_def set_Object_values)
  moreover from wf have "distinct (map fst index)"
    by (simp add: wf_index_def)
  ultimately have "(k, e) \<in> set index" and "k \<noteq> key_of e"
    using ne by (auto simp: set_obj_put)
  with wf show False
    by (auto simp: wf_index_def list_all_iff)
qed

text \<open>
  Claim C8. Storing an entity \<open>e\<close> and then an entity \<open>e'\<close> with the same identity
  leaves the size of the index as it was after the first store (and as it was before
  both, when the identity was already a key), the key holds \<open>e'\<close>, the derived array
  contains \<open>e'\<close>, and (in an index keyed by identity, for \<open>e'\<close> different from \<open>e\<close>) no
  longer contains \<open>e\<close>. One call with both arguments gives the same index as the two
  calls in sequence, and in any one call the last argument with a given identity is the
  one stored.
\<close>

theorem useIndex_set_same_identity_overwrites:
  assumes same: "id_field e' = id_field e"
  shows "length (useIndex_set [e'] (useIndex_set [e] index)) = length (useIndex_set [e] index)
    \<and> obj_get (useIndex_set [e'] (useIndex_set [e] index)) (key_of e) = Some e'
    \<and> e' \<in> set (useIndex_array (useIndex_set [e'] (useIndex_set [e] index)))
    \<and> (wf_index index \<and> e \<noteq> e' \<longrightarrow>
          e \<notin> set (useIndex_array (useIndex_set [e'] (useIndex_set [e] index))))
    \<and> (obj_get index (key_of e) \<noteq> None \<longrightarrow>
          length (useIndex_set [e'] (useIndex_set [e] index)) = length index)
    \<and> useIndex_set [e, e'] index = useIndex_set [e'] (useIndex_set [e] index)
    \<and> ((\<forall>d \<in> set ys. key_of d \<noteq> key_of e') \<longrightarrow>
          obj_get (useIndex_set (xs @ e' # ys) index) (key_of e') = Some e')"
proof -
  have k: "key_of e' = key_of e"
    using same by (rule key_of_same)
  have s2: "useIndex_set [e'] (useIndex_set [e] index) = obj_put (key_of e) e' index"
    by (simp add: useIndex_set_single k obj_put_twice)
  have "length (obj_put (key_of e) e' index) = length (obj_put (key_of e) e index)"
    by (simp add: length_obj_put)
  moreover have "obj_get (obj_put (key_of e) e' index) (key_of e) = Some e'"
    by (simp add: obj_get_def map_of_obj_put)
  moreover have "e' \<in> set (useIndex_array (obj_put (key_of e) e' index))"
  proof -
    have "(key_of e, e') \<in> set (obj_put (key_of e) e' index)"
      by (induction index) auto
    then show ?thesis
      by (force simp: useIndex_array_def set_Object_values)
  qed
  moreover have "useIndex_set [e, e'] index = obj_put (key_of e) e' index"
    using k by (rule useIndex_set_pair)
  moreover have "length (useIndex_set [e] index) = length (obj_put (key_of e) e index)"
    by (simp add: useIndex_set_single)
  moreover have "obj_get index (key_of e) \<noteq> None \<longrightarrow>
      length (obj_put (key_of e) e' index) = length index"
    by (simp add: length_obj_put obj_get_None_iff)
  ultimately show ?thesis
    unfolding s2
    using not_in_array_after_put [of index e e'] last_argument_wins [of ys e' xs index]
    by simp
qed

theorem useIndex_set_same_identity_overwrites_witness:
  "id_field \<lparr>id_field = Some ''1'', attrs = ''Updated Item 1''\<rparr>
     = id_field \<lparr>id_field = Some ''1'', attrs = ''Item 1''\<rparr>
   \<and> wf_index [(''2'', \<lparr>id_field = Some ''2'', attrs = ''Item 2''\<rparr>),
               (''1'', \<lparr>id_field = Some ''1'', attrs = ''Item 1''\<rparr>)]
   \<and> \<lparr>id_field = Some ''1'', attrs = ''Item 1''\<rparr>
       \<noteq> \<lparr>id_field = Some ''1'', attrs = ''Updated Item 1''\<rparr>
   \<and> obj_get [(''2'', \<lparr>id_field = Some ''2'', attrs = ''Item 2''\<rparr>),
               (''1'', \<lparr>id_field = Some ''1'', attrs = ''Item 1''\<rparr>)]
        (key_of \<lparr>id_field = Some ''1'', attrs = ''Item 1''\<rparr>) \<noteq> None
   \<and> useIndex_array (useIndex_set [\<lparr>id_field = Some ''1'', attrs = ''Updated Item 1''\<rparr>]
         (useIndex_set [\<lparr>id_field = Some ''1'', attrs = ''Item 1''\<rparr>]
            [(''2'', \<lparr>id_field = Some ''2'', attrs = ''Item 2''\<rparr>),
             (''1'', \<lparr>id_field = Some ''1'', attrs = ''Item 1''\<rparr>)]))
       = [\<lparr>id_field = Some ''1'', attrs = ''Updated Item 1''\<rparr>,
          \<lparr>id_field = Some ''2'', attrs = ''Item 2''\<rparr>]
   \<and> key_of \<lparr>id_field = Some ''3'', attrs = ''Item 3''\<rparr>
       \<noteq> key_of \<lparr>id_field = Some ''1'', attrs = ''Updated Item 1''\<rparr>
   \<and> useIndex_set
        ([\<lparr>id_field = Some ''1'', attrs = ''Item 1''\<rparr>]
          @ \<lparr>id_field = Some ''1'', attrs = ''Updated Item 1''\<rparr>
          # [\<lparr>id_field = Some ''3'', attrs = ''Item 3''\<rparr>])
        [(''2'', \<lparr>id_field = Some ''2'', attrs = ''Item 2''\<rparr>),
         (''1'', \<lparr>id_field = Some ''1'', attrs = ''Item 1''\<rparr>)]
       = [(''2'', \<lparr>id_field = Some ''2'', attrs = ''Item 2''\<rparr>),
          (''1'', \<lparr>id_field = Some ''1'', attrs = ''Updated Item 1''\<rparr>),
          (''3'', \<lparr>id_field = Some ''3'', attrs = ''Item 3''\<rparr>)]"
  using useIndex_set_same_identity_overwrites
      [where e' = "\<lparr>id_field = Some ''1'', attrs = ''Updated Item 1''\<rparr>"
        and e = "\<lparr>id_field = Some ''1'', attrs = ''Item 1''\<rparr>"
        and index = "[(''2'', \<lparr>id_field = Some ''2'', attrs = ''Item 2''\<rparr>),
                      (''1'', \<lparr>id_field = Some ''1'', attrs = ''Item 1''\<rparr>)]"
        and xs = "[\<lparr>id_field = Some ''1'', attrs = ''Item 1''\<rparr>]"
        and ys = "[\<lparr>id_field = Some ''3'', attrs = ''Item 3''\<rparr>]"]
  by (simp add: wf_index_def key_of_def useIndex_array_def Object_values_def own_entries_def
      is_index_key_def array_index_def is_digit_def decimal_def digit_val_def
      useIndex_set_def obj_assign_def Object_fromEntries_def obj_get_def)

text \<open>
  Claim C9. Removing an entity whose identity is not a key of the index returns the index
  as it was, and so the derived array; \<^verbatim>\<open>remove\<close> has no failing branch (the model is a
  total function into indexes). Removing the same entity a second time changes nothing
  further, whatever the index held.
\<close>

theorem useIndex_remove_absent_unchanged:
  assumes "obj_get index (key_of e) = None"
  shows "useIndex_remove [e] index = index
    \<and> useIndex_array (useIndex_remove [e] index) = useIndex_array index
    \<and> useIndex_remove [e] (useIndex_remove [e] index') = useIndex_remove [e] index'"
  using assms by (simp add: useIndex_remove_def obj_get_delete)

theorem useIndex_remove_absent_unchanged_witness:
  "obj_get [(''1'', \<lparr>id_field = Some ''1'', attrs = ''Item 1''\<rparr>)]
      (key_of \<lparr>id_field = Some ''999'', attrs = ''Non-existent''\<rparr>) = None
   \<and> useIndex_remove [\<lparr>id_field = Some ''999'', attrs = ''Non-existent''\<rparr>]
        [(''1'', \<lparr>id_field = Some ''1'', attrs = ''Item 1''\<rparr>)]
      = [(''1'', \<lparr>id_field = Some ''1'', attrs = ''Item 1''\<rparr>)]"
  using useIndex_remove_absent_unchanged
      [of "[(''1'', \<lparr>id_field = Some ''1'', attrs = ''Item 1''\<rparr>)]"
          "\<lparr>id_field = Some ''999'', attrs = ''Non-existent''\<rparr>"]
  by (simp add: obj_get_def key_of_def)

section \<open>Properties of the guards\<close>




text \<open>
  A call through the closure of the current render is the two phases one after the other
  with nothing in between.
\<close>

lemma useAction_trigger_phases:
  "useAction_trigger action onSuccess props (s, w) =
     (case useAction_start action props s (s, w) of
        (pending, s1, w1) \<Rightarrow> useAction_finish onSuccess pending (s1, w1))"
  by (simp add: useAction_trigger_def useAction_start_def useAction_finish_def Let_def
      split: prod.splits sum.splits option.splits)

lemma useMethod_trigger_phases:
  "useMethod_trigger method props (s, w) =
     (case useMethod_start method props s (s, w) of
        (pending, s1, w1) \<Rightarrow> useMethod_finish pending (s1, w1))"
  by (simp add: useMethod_trigger_def useMethod_start_def useMethod_finish_def Let_def
      split: prod.splits sum.splits)

text \<open>
  A call through a closure whose render saw the loading flag set returns \<^verbatim>\<open>undefined\<close>,
  leaves the state of the guard as it is and does not call the wrapped operation: the
  log of its invocations and the world are unchanged. In particular this holds for a call
  through the closure of the current render of a guard that is loading.
\<close>

lemma call_through_loading_closure_is_dropped:
  "(loading c \<longrightarrow>
      useMethod_start (recorded f) props c (s, log, w) = (Dropped, s, log, w)
      \<and> useMethod_finish Dropped (s, log, w) = (Inr None, s, log, w))
   \<and> (loading d \<longrightarrow>
      useAction_start (recorded action) input d (a, log', w') = (Dropped, a, log', w')
      \<and> useAction_finish onSuccess Dropped (a, log', w') = (Inr None, a, log', w'))"
  by (simp add: useMethod_start_def useMethod_finish_def useAction_start_def
      useAction_finish_def)

lemma trigger_of_current_render_while_loading_is_dropped:
  "(loading s \<longrightarrow>
      useMethod_trigger (recorded f) props (s, log, w) = (Inr None, s, log, w))
   \<and> (loading a \<longrightarrow>
      useAction_trigger (recorded action) (map_option unrecorded onSuccess) input (a, log', w')
        = (Inr None, a, log', w'))"
  by (simp add: useMethod_trigger_def useAction_trigger_def)

text \<open>
  The test looks at the flag of the closure only: through a closure whose render saw the
  flag clear, the operation is called whatever the flag of the guard is by now.
\<close>

lemma call_through_stale_closure_invokes:
  "(\<not> loading c \<longrightarrow>
      fst (snd (snd (useMethod_start (recorded f) props c (s, log, w)))) = log @ [props])
   \<and> (\<not> loading d \<longrightarrow>
      fst (snd (snd (useAction_start (recorded action) input d (a, log', w'))))
        = log' @ [obj_assign input (defaults d)])"
  by (simp add: useMethod_start_def useAction_start_def recorded_def split: prod.splits)

text \<open>
  Claim C2. The claim holds for a call through the closure of the render that shows the
  flag set (lemma \<open>call_through_loading_closure_is_dropped\<close>) and fails for a call through
  an older closure. Here a caller keeps the \<^verbatim>\<open>trigger\<close> of the first render of a fresh
  guard and calls it twice, the second time while the first call is in flight: after the
  first call the flag of the guard is set and the operation has been called once; the
  second call, made in that state, does not return at once but calls the operation
  again, and when its promise settles it returns the result, not \<^verbatim>\<open>undefined\<close>. This is so
  for \<^verbatim>\<open>useMethod\<close> and for \<^verbatim>\<open>useAction\<close>.
\<close>

theorem trigger_through_stale_closure_invokes_again:
  "useMethod_start (recorded (\<lambda>p w. (Inr ''done'' :: string + string, w))) ''1''
       useMethod_init (useMethod_init, [], ())
     = (Pending (Inr ''done''), \<lparr>loading = True, error = None, result = None\<rparr>, [''1''], ())
   \<and> useMethod_start (recorded (\<lambda>p w. (Inr ''done'' :: string + string, w))) ''1''
       useMethod_init (\<lparr>loading = True, error = None, result = None\<rparr>, [''1''], ())
     = (Pending (Inr ''done''), \<lparr>loading = True, error = None, result = None\<rparr>,
        [''1'', ''1''], ())
   \<and> useMethod_finish (Pending (Inr ''done'' :: string + string))
       (\<lparr>loading = True, error = None, result = None\<rparr>, [''1'', ''1''], ())
     = (Inr (Some ''done''), \<lparr>loading = False, error = None, result = Some ''done''\<rparr>,
        [''1'', ''1''], ())
   \<and> useAction_start (recorded (\<lambda>p w. (Inr ''done'' :: string + string, w)))
       [(''id'', ''1'')] (useAction_init (Some [])) (useAction_init (Some []), [], ())
     = (Pending (Inr ''done''),
        \<lparr>loading = True, error = None, result = None, defaults = []\<rparr>,
        [[(''id'', ''1'')]], ())
   \<and> useAction_start (recorded (\<lambda>p w. (Inr ''done'' :: string + string, w)))
       [(''id'', ''1'')] (useAction_init (Some []))
       (\<lparr>loading = True, error = None, result = None, defaults = []\<rparr>,
        [[(''id'', ''1'')]], ())
     = (Pending (Inr ''done''),
        \<lparr>loading = True, error = None, result = None, defaults = []\<rparr>,
        [[(''id'', ''1'')], [(''id'', ''1'')]], ())
   \<and> useAction_finish None (Pending (Inr ''done'' :: string + string))
       (\<lparr>loading = True, error = None, result = None, defaults = [] :: string obj\<rparr>,
        [[(''id'', ''1'')], [(''id'', ''1'')]], ())
     = (Inr (Some ''done''),
        \<lparr>loading = False, error = None, result = Some ''done'', defaults = []\<rparr>,
        [[(''id'', ''1'')], [(''id'', ''1'')]], ())"
  by (simp add: useMethod_start_def useMethod_finish_def useMethod_before_def
      useMethod_init_def useAction_start_def useAction_finish_def useAction_before_def
      useAction_init_def recorded_def obj_assign_def own_entries_def)



text \<open>
  What a failing operation does to each guard. \<^verbatim>\<open>useMethod\<close> stores the error, keeps the
  earlier result, clears the loading flag and raises the error to the caller.
  \<^verbatim>\<open>useAction\<close> stores the error, keeps the earlier result and clears the loading flag,
  but its \<^verbatim>\<open>trigger\<close> never raises: the promise resolves with \<^verbatim>\<open>undefined\<close>.
\<close>

lemma useMethod_trigger_failure:
  assumes "\<not> loading s" and "method props w = (Inl err, w1)"
  shows "useMethod_trigger method props (s, w)
           = (Inl err, s\<lparr>loading := False, error := Some err\<rparr>, w1)"
  using assms by (simp add: useMethod_trigger_def useMethod_before_def)

lemma useAction_trigger_failure:
  assumes "\<not> loading s" and "action (obj_assign props (defaults s)) w = (Inl err, w1)"
  shows "useAction_trigger action onSuccess props (s, w)
           = (Inr None, s\<lparr>loading := False, error := Some err\<rparr>, w1)"
  using assms by (simp add: useAction_trigger_def useAction_before_def)

lemma useAction_trigger_never_raises:
  "fst (useAction_trigger action onSuccess props (s, w)) \<noteq> Inl e"
  by (simp add: useAction_trigger_def Let_def split: prod.splits sum.splits option.splits)

text \<open>
  Claim C3. The claim holds for \<^verbatim>\<open>useMethod\<close> (lemma \<open>useMethod_trigger_failure\<close>) and
  fails for \<^verbatim>\<open>useAction\<close>: with an operation that rejects with \<^verbatim>\<open>Test error\<close>, called from
  the initial state with empty defaults and empty input, the error is stored and the
  loading flag cleared, but the outcome of \<^verbatim>\<open>trigger\<close> is \<^verbatim>\<open>undefined\<close> and not the
  failure raised again.
\<close>

theorem useAction_trigger_failure_not_reraised:
  "useAction_trigger (\<lambda>p w. (Inl ''Test error'', w)) None []
     (useAction_init (Some []) :: (string, nat, nat) action_state, ())
   = (Inr None,
      \<lparr>loading = False, error = Some ''Test error'', result = None, defaults = []\<rparr>, ())"
  by (simp add: useAction_trigger_def useAction_before_def useAction_init_def)

text \<open>
  What a succeeding operation does to each guard. \<^verbatim>\<open>useMethod\<close> clears the error before
  the call and ends with the result stored, no error and the loading flag cleared.
  \<^verbatim>\<open>useAction\<close> has no statement that clears the error: the error of an earlier call is
  still there before the operation is called and after it has succeeded.
\<close>

lemma useMethod_trigger_success:
  assumes "\<not> loading s" and "method props w = (Inr data, w1)"
  shows "error (useMethod_before s) = None
    \<and> useMethod_trigger method props (s, w)
           = (Inr (Some data), s\<lparr>loading := False, error := None, result := Some data\<rparr>, w1)"
  using assms by (simp add: useMethod_trigger_def useMethod_before_def)

lemma useAction_trigger_success:
  assumes "\<not> loading s" and "action (obj_assign props (defaults s)) w = (Inr res, w1)"
  shows "error (useAction_before s) = error s
    \<and> useAction_trigger action None props (s, w)
           = (Inr (Some res), s\<lparr>loading := False, result := Some res\<rparr>, w1)"
  using assms by (simp add: useAction_trigger_def useAction_before_def)

text \<open>
  Claim C7. The claim holds for \<^verbatim>\<open>useMethod\<close> (lemma \<open>useMethod_trigger_success\<close>) and
  fails for \<^verbatim>\<open>useAction\<close>. Here the operation rejects with \<^verbatim>\<open>Test error\<close> on its first
  call and resolves with \<^verbatim>\<open>success\<close> afterwards (the world counts the calls). The first
  \<^verbatim>\<open>trigger\<close>, from the initial state, stores the error; the second returns the result
  and stores it, but the error of the first call is there before the operation is
  called and still there after it has succeeded.
\<close>

theorem useAction_trigger_success_keeps_error:
  "snd (useAction_trigger
         (\<lambda>p w. (if w = (0::nat) then Inl ''Test error'' else Inr ''success'', Suc w)) None []
         (useAction_init (Some ([] :: nat obj)), 0))
     = (\<lparr>loading = False, error = Some ''Test error'', result = None, defaults = []\<rparr>, 1)
   \<and> error (useAction_before
        \<lparr>loading = False, error = Some ''Test error'', result = None :: string option,
          defaults = [] :: nat obj\<rparr>)
      = Some ''Test error''
   \<and> useAction_trigger
         (\<lambda>p w. (if w = (0::nat) then Inl ''Test error'' else Inr ''success'', Suc w)) None []
         (\<lparr>loading = False, error = Some ''Test error'', result = None, defaults = []\<rparr>, 1)
     = (Inr (Some ''success''),
        \<lparr>loading = False, error = Some ''Test error'', result = Some ''success'',
          defaults = []\<rparr>, 2)"
  by (simp add: useAction_trigger_def useAction_before_def useAction_init_def obj_assign_def
      own_entries_def)

section \<open>Properties of the table layer\<close>

lemma set_obj_put_subset: "set (obj_put k v ob) \<subseteq> insert (k, v) (set ob)"
  by (induction ob) auto

lemma set_fold_put_subset:
  "set (fold (\<lambda>p. obj_put (fst p) (snd p)) es acc) \<subseteq> set acc \<union> set es"
proof (induction es arbitrary: acc)
  case Nil
  show ?case by simp
next
  case (Cons p es)
  have "set (fold (\<lambda>p. obj_put (fst p) (snd p)) es (obj_put (fst p) (snd p) acc))
          \<subseteq> set (obj_put (fst p) (snd p) acc) \<union> set es"
    by (rule Cons.IH)
  also have "\<dots> \<subseteq> insert p (set acc) \<union> set es"
    using set_obj_put_subset [of "fst p" "snd p" acc] by auto
  finally show ?case by auto
qed

lemma set_fromEntries_subset: "set (Object_fromEntries es) \<subseteq> set es"
  using set_fold_put_subset [of es "[]"] by (simp add: Object_fromEntries_def)

lemma keys_fromEntries: "fst ` set (Object_fromEntries es) = fst ` set es"
  by (simp add: Object_fromEntries_def keys_fold_put)

lemma length_fromEntries:
  assumes "distinct (map fst es)"
  shows "length (Object_fromEntries es) = length es"
proof -
  have "length (Object_fromEntries es) = length (map fst (Object_fromEntries es))"
    by simp
  also have "\<dots> = card (set (map fst (Object_fromEntries es)))"
    using distinct_fromEntries [of es] by (simp only: distinct_card)
  also have "\<dots> = card (set (map fst es))"
    by (simp add: keys_fromEntries)
  also have "\<dots> = length (map fst es)"
    using assms by (simp only: distinct_card)
  finally show ?thesis by simp
qed

lemma obj_get_fromEntries: "obj_get (Object_fromEntries es) k = map_of (rev es) k"
  by (simp add: obj_get_def map_of_fromEntries)

lemma fromEntries_present:
  assumes "distinct (map key_of entries)" and "e \<in> set entries"
  shows "obj_get (Object_fromEntries (map (\<lambda>item. (key_of item, item)) entries)) (key_of e) = Some e"
proof -
  let ?es = "map (\<lambda>item. (key_of item, item)) entries"
  have "map fst ?es = map key_of entries"
    by (simp add: comp_def)
  with assms(1) have "distinct (map fst (rev ?es))"
    by (simp add: rev_map [symmetric] comp_def)
  moreover have "(key_of e, e) \<in> set (rev ?es)"
    using assms(2) by auto
  ultimately have "map_of (rev ?es) (key_of e) = Some e"
    by (rule map_of_is_SomeI)
  then show ?thesis
    by (simp add: obj_get_fromEntries)
qed

lemma fromEntries_some_present:
  assumes "e \<in> set entries"
  shows "\<exists>e' \<in> set entries. key_of e' = key_of e \<and>
     obj_get (Object_fromEntries (map (\<lambda>item. (key_of item, item)) entries)) (key_of e) = Some e'"
proof -
  let ?es = "map (\<lambda>item. (key_of item, item)) entries"
  have "key_of e \<in> fst ` set (rev ?es)"
    using assms by force
  then obtain e' where m: "map_of (rev ?es) (key_of e) = Some e'"
    by (cases "map_of (rev ?es) (key_of e)") (auto simp: map_of_eq_None_iff)
  then have "(key_of e, e') \<in> set (rev ?es)"
    by (rule map_of_SomeD)
  then have "e' \<in> set entries" and "key_of e' = key_of e"
    by auto
  with m show ?thesis
    by (auto simp: obj_get_fromEntries)
qed

lemma fromEntries_absent:
  assumes "k \<notin> key_of ` set entries"
  shows "obj_get (Object_fromEntries (map (\<lambda>item. (key_of item, item)) entries)) k = None"
  using assms by (force simp: obj_get_None_iff keys_fromEntries)

lemma list_trigger_success:
  assumes "\<not> loading (t_list t)"
    and "crud_list crud (with_table props table) w = (Inr (Some entries), w1)"
  shows "list_trigger crud table props (t, w) =
    (Inr (Some (Some entries)),
     t\<lparr>t_index := Object_fromEntries (map (\<lambda>item. (key_of item, item)) entries),
       t_list := (t_list t)\<lparr>loading := False, error := None, result := Some (Some entries)\<rparr>\<rparr>,
     w1)"
  using assms
  by (simp add: list_trigger_def listWithIndex_def useMethod_trigger_def useMethod_before_def
      setIndex_def)

lemma with_table_eq: "with_table props table = obj_put ''table'' (JString table) props"
  by (simp add: with_table_def obj_assign_def own_entries_single)

lemma obj_get_with_table: "obj_get (with_table props table) ''table'' = Some (JString table)"
  by (simp add: with_table_eq obj_get_def map_of_obj_put)

text \<open>
  Claim C4. When the \<^verbatim>\<open>list\<close> guard is free and the backend resolves with an array of
  entries, the trigger returns the entries and the index becomes the object built from
  the pairs (identity, entry): a key holds the last entry of the result with that
  identity, so every identity of the result is present, and with no identity twice in
  the result every returned entity is present under its identity; a key that is not the
  identity of a returned entry is absent, whatever the index held before. The derived
  array holds returned entries only and, with no identity twice, as many as were returned.
\<close>

theorem list_replaces_index:
  assumes "\<not> loading (t_list t)"
    and "crud_list crud (with_table props table) w = (Inr (Some entries), w1)"
  shows "(case list_trigger crud table props (t, w) of
    (out, t', w') \<Rightarrow>
      out = Inr (Some (Some entries))
    \<and> t_index t' = Object_fromEntries (map (\<lambda>item. (key_of item, item)) entries)
    \<and> (\<forall>k. obj_get (t_index t') k = map_of (rev (map (\<lambda>item. (key_of item, item)) entries)) k)
    \<and> (\<forall>e \<in> set entries. \<exists>e' \<in> set entries.
          key_of e' = key_of e \<and> obj_get (t_index t') (key_of e) = Some e')
    \<and> (distinct (map key_of entries) \<longrightarrow>
          (\<forall>e \<in> set entries. obj_get (t_index t') (key_of e) = Some e))
    \<and> (\<forall>k. k \<notin> key_of ` set entries \<longrightarrow> obj_get (t_index t') k = None)
    \<and> set (table_array t') \<subseteq> set entries
    \<and> (distinct (map key_of entries) \<longrightarrow> length (table_array t') = length entries))"
proof -
  let ?es = "map (\<lambda>item. (key_of item, item)) entries"
  have keys: "map fst ?es = map key_of entries"
    by (simp add: comp_def)
  have "set (Object_values (Object_fromEntries ?es)) \<subseteq> set entries"
    using set_fromEntries_subset [of ?es] by (auto simp: set_Object_values)
  moreover have "distinct (map key_of entries) \<longrightarrow>
      length (Object_values (Object_fromEntries ?es)) = length entries"
    using length_fromEntries [of ?es] by (simp add: length_Object_values comp_def)
  ultimately show ?thesis
    using fromEntries_present [of entries] fromEntries_some_present [of _ entries]
      fromEntries_absent [of _ entries]
    by (simp add: list_trigger_success [OF assms] table_array_def obj_get_fromEntries)
qed

theorem list_replaces_index_witness:
  "\<not> loading (t_list (useTableProvider_init
          (Some [(''1'', \<lparr>id_field = Some ''1'', attrs = ''John''\<rparr>),
                 (''2'', \<lparr>id_field = Some ''2'', attrs = ''Jane''\<rparr>)])
          :: (string, string) table_state))
   \<and> crud_list
        \<lparr>crud_find = \<lambda>p w. (Inr None, w), crud_create = \<lambda>p w. (Inr None, w),
          crud_update = \<lambda>p w. (Inr None, w), crud_remove = \<lambda>p w. (Inr None, w),
          crud_list = \<lambda>p w. (Inr (Some [\<lparr>id_field = Some ''2'', attrs = ''Jane''\<rparr>]), w)\<rparr>
        (with_table ([] :: string payload) ''users'') ()
       = (Inr (Some [\<lparr>id_field = Some ''2'', attrs = ''Jane''\<rparr>]), ())
   \<and> distinct (map key_of [\<lparr>id_field = Some ''2'', attrs = ''Jane''\<rparr>])
   \<and> t_index (fst (snd (list_trigger
        \<lparr>crud_find = \<lambda>p w. (Inr None, w), crud_create = \<lambda>p w. (Inr None, w),
          crud_update = \<lambda>p w. (Inr None, w), crud_remove = \<lambda>p w. (Inr None, w),
          crud_list = \<lambda>p w. (Inr (Some [\<lparr>id_field = Some ''2'', attrs = ''Jane''\<rparr>]), w)\<rparr>
        ''users'' ([] :: string payload)
        ((useTableProvider_init
          (Some [(''1'', \<lparr>id_field = Some ''1'', attrs = ''John''\<rparr>),
                 (''2'', \<lparr>id_field = Some ''2'', attrs = ''Jane''\<rparr>)])
          :: (string, string) table_state), ()))))
      = [(''2'', \<lparr>id_field = Some ''2'', attrs = ''Jane''\<rparr>)]
   \<and> obj_get (t_index (fst (snd (list_trigger
        \<lparr>crud_find = \<lambda>p w. (Inr None, w), crud_create = \<lambda>p w. (Inr None, w),
          crud_update = \<lambda>p w. (Inr None, w), crud_remove = \<lambda>p w. (Inr None, w),
          crud_list = \<lambda>p w. (Inr (Some [\<lparr>id_field = Some ''2'', attrs = ''Jane''\<rparr>]), w)\<rparr>
        ''users'' ([] :: string payload)
        ((useTableProvider_init
          (Some [(''1'', \<lparr>id_field = Some ''1'', attrs = ''John''\<rparr>),
                 (''2'', \<lparr>id_field = Some ''2'', attrs = ''Jane''\<rparr>)])
          :: (string, string) table_state), ()))))) ''1'' = None
   \<and> table_array (fst (snd (list_trigger
        \<lparr>crud_find = \<lambda>p w. (Inr None, w), crud_create = \<lambda>p w. (Inr None, w),
          crud_update = \<lambda>p w. (Inr None, w), crud_remove = \<lambda>p w. (Inr None, w),
          crud_list = \<lambda>p w. (Inr (Some [\<lparr>id_field = Some ''2'', attrs = ''Jane''\<rparr>]), w)\<rparr>
        ''users'' ([] :: string payload)
        ((useTableProvider_init
          (Some [(''1'', \<lparr>id_field = Some ''1'', attrs = ''John''\<rparr>),
                 (''2'', \<lparr>id_field = Some ''2'', attrs = ''Jane''\<rparr>)])
          :: (string, string) table_state), ()))))
      = [\<lparr>id_field = Some ''2'', attrs = ''Jane''\<rparr>]"
  using list_replaces_index [where t = "(useTableProvider_init
          (Some [(''1'', \<lparr>id_field = Some ''1'', attrs = ''John''\<rparr>),
                 (''2'', \<lparr>id_field = Some ''2'', attrs = ''Jane''\<rparr>)])
          :: (string, string) table_state)"
      and crud = "\<lparr>crud_find = \<lambda>p w. (Inr None, w), crud_create = \<lambda>p w. (Inr None, w),
          crud_update = \<lambda>p w. (Inr None, w), crud_remove = \<lambda>p w. (Inr None, w),
          crud_list = \<lambda>p w. (Inr (Some [\<lparr>id_field = Some ''2'', attrs = ''Jane''\<rparr>]), w)\<rparr>"
      and props = "[] :: string payload" and table = "''users''" and w = "()"
      and entries = "[\<lparr>id_field = Some ''2'', attrs = ''Jane''\<rparr>]" and ?w1.0 = "()"]
  by (simp add: useTableProvider_init_def useMethod_init_def Object_fromEntries_def key_of_def
      table_array_def Object_values_def own_entries_def obj_get_def
      split: prod.splits)

text \<open>
  The calls the backend receives from each of the five triggers: none when the guard is
  loading, otherwise one, whose payload is the caller's input with the table name of the
  handle written over it.
\<close>

lemma find_trigger_log:
  "fst (snd (snd (find_trigger (recorded_CRUD crud) table props (t, log, w))))
     = (if loading (t_find t) then log else log @ [with_table props table])"
  by (simp add: find_trigger_def useMethod_trigger_def recorded_CRUD_def recorded_def
      Let_def split: prod.splits sum.splits)

lemma create_trigger_log:
  "fst (snd (snd (create_trigger (recorded_CRUD crud) table props (t, log, w))))
     = (if loading (t_create t) then log else log @ [with_table props table])"
  by (simp add: create_trigger_def createWithIndex_def useMethod_trigger_def recorded_CRUD_def recorded_def
      Let_def split: prod.splits sum.splits)

lemma update_trigger_log:
  "fst (snd (snd (update_trigger (recorded_CRUD crud) table props (t, log, w))))
     = (if loading (t_update t) then log else log @ [with_table props table])"
  by (simp add: update_trigger_def updateWithIndex_def useMethod_trigger_def recorded_CRUD_def recorded_def
      Let_def split: prod.splits sum.splits)

lemma remove_trigger_log:
  "fst (snd (snd (remove_trigger (recorded_CRUD crud) table props (t, log, w))))
     = (if loading (t_remove t) then log else log @ [with_table props table])"
  by (simp add: remove_trigger_def removeWithIndex_def useMethod_trigger_def recorded_CRUD_def recorded_def
      Let_def split: prod.splits sum.splits)

lemma list_trigger_log:
  "fst (snd (snd (list_trigger (recorded_CRUD crud) table props (t, log, w))))
     = (if loading (t_list t) then log else log @ [with_table props table])"
  by (simp add: list_trigger_def listWithIndex_def useMethod_trigger_def recorded_CRUD_def recorded_def
      Let_def split: prod.splits sum.splits)

text \<open>
  Claim C5. For each of \<^verbatim>\<open>find\<close>, \<^verbatim>\<open>create\<close>, \<^verbatim>\<open>update\<close>, \<^verbatim>\<open>remove\<close> and \<^verbatim>\<open>list\<close>,
  the only payload a trigger passes to the backend is \<^verbatim>\<open>{ ...props, table }\<close>, whose
  \<^verbatim>\<open>table\<close> field is the table name of the handle, whatever \<^verbatim>\<open>props\<close> holds under that
  key.
\<close>

theorem backend_payload_carries_handle_table:
  "obj_get (with_table props table) ''table'' = Some (JString table)
   \<and> fst (snd (snd (find_trigger (recorded_CRUD crud) table props (t, log, w))))
       = (if loading (t_find t) then log else log @ [with_table props table])
   \<and> fst (snd (snd (create_trigger (recorded_CRUD crud) table props (t, log, w))))
       = (if loading (t_create t) then log else log @ [with_table props table])
   \<and> fst (snd (snd (update_trigger (recorded_CRUD crud) table props (t, log, w))))
       = (if loading (t_update t) then log else log @ [with_table props table])
   \<and> fst (snd (snd (remove_trigger (recorded_CRUD crud) table props (t, log, w))))
       = (if loading (t_remove t) then log else log @ [with_table props table])
   \<and> fst (snd (snd (list_trigger (recorded_CRUD crud) table props (t, log, w))))
       = (if loading (t_list t) then log else log @ [with_table props table])"
  by (simp only: obj_get_with_table find_trigger_log create_trigger_log update_trigger_log
      remove_trigger_log list_trigger_log simp_thms)

theorem backend_payload_carries_handle_table_witness:
  "create_trigger (recorded_CRUD
      \<lparr>crud_find = \<lambda>p w. (Inr None :: string + string entity option, w),
        crud_create = \<lambda>p w. (Inr (Some \<lparr>id_field = Some ''3'', attrs = ''Bob''\<rparr>), w),
        crud_update = \<lambda>p w. (Inr None, w), crud_remove = \<lambda>p w. (Inr None, w),
        crud_list = \<lambda>p w. (Inr None, w)\<rparr>)
      ''users'' [(''table'', JString ''posts''), (''data'', JOther ''Bob'')]
      (useTableProvider_init None, [], ())
     = (Inr (Some (Some \<lparr>id_field = Some ''3'', attrs = ''Bob''\<rparr>)),
        \<lparr>t_index = [(''3'', \<lparr>id_field = Some ''3'', attrs = ''Bob''\<rparr>)],
         t_find = useMethod_init,
         t_create = \<lparr>loading = False, error = None,
           result = Some (Some \<lparr>id_field = Some ''3'', attrs = ''Bob''\<rparr>)\<rparr>,
         t_update = useMethod_init, t_remove = useMethod_init, t_list = useMethod_init\<rparr>,
        [[(''table'', JString ''users''), (''data'', JOther ''Bob'')]], ())"
  using backend_payload_carries_handle_table [where crud = "\<lparr>crud_find = \<lambda>p w. (Inr None :: string + string entity option, w),
        crud_create = \<lambda>p w. (Inr (Some \<lparr>id_field = Some ''3'', attrs = ''Bob''\<rparr>), w),
        crud_update = \<lambda>p w. (Inr None, w), crud_remove = \<lambda>p w. (Inr None, w),
        crud_list = \<lambda>p w. (Inr None, w)\<rparr>"
      and table = "''users''" and props = "[(''table'', JString ''posts''), (''data'', JOther ''Bob'')]"
      and t = "useTableProvider_init None" and log = "[]" and w = "()"]
  by (simp add: create_trigger_def createWithIndex_def useMethod_trigger_def recorded_CRUD_def
      recorded_def useMethod_before_def useTableProvider_init_def useMethod_init_def
      with_table_eq truthy_id_def useIndex_set_single key_of_def)

text \<open>The index after each trigger, by the way the backend call settles.\<close>

lemma create_trigger_index:
  "t_index (fst (snd (create_trigger crud table props (t, w)))) =
     (if loading (t_create t) then t_index t
      else case crud_create crud (with_table props table) w of
        (Inl err, w1) \<Rightarrow> t_index t
      | (Inr None, w1) \<Rightarrow> t_index t
      | (Inr (Some r), w1) \<Rightarrow> if truthy_id r then useIndex_set [r] (t_index t) else t_index t)"
  by (simp add: create_trigger_def createWithIndex_def useMethod_trigger_def Let_def
      split: prod.splits sum.splits option.splits)

lemma update_trigger_index:
  "t_index (fst (snd (update_trigger crud table props (t, w)))) =
     (if loading (t_update t) then t_index t
      else case crud_update crud (with_table props table) w of
        (Inl err, w1) \<Rightarrow> t_index t
      | (Inr None, w1) \<Rightarrow> t_index t
      | (Inr (Some r), w1) \<Rightarrow> if truthy_id r then useIndex_set [r] (t_index t) else t_index t)"
  by (simp add: update_trigger_def updateWithIndex_def useMethod_trigger_def Let_def
      split: prod.splits sum.splits option.splits)

lemma remove_trigger_index:
  "t_index (fst (snd (remove_trigger crud table props (t, w)))) =
     (if loading (t_remove t) then t_index t
      else case crud_remove crud (with_table props table) w of
        (Inl err, w1) \<Rightarrow> t_index t
      | (Inr None, w1) \<Rightarrow> t_index t
      | (Inr (Some r), w1) \<Rightarrow> if truthy_id r then useIndex_remove [r] (t_index t) else t_index t)"
  by (simp add: remove_trigger_def removeWithIndex_def useMethod_trigger_def Let_def
      split: prod.splits sum.splits option.splits)

lemma list_trigger_index:
  "t_index (fst (snd (list_trigger crud table props (t, w)))) =
     (if loading (t_list t) then t_index t
      else case crud_list crud (with_table props table) w of
        (Inl err, w1) \<Rightarrow> t_index t
      | (Inr None, w1) \<Rightarrow> t_index t
      | (Inr (Some items), w1) \<Rightarrow> Object_fromEntries (map (\<lambda>item. (key_of item, item)) items))"
  by (simp add: list_trigger_def listWithIndex_def useMethod_trigger_def Let_def setIndex_def
      split: prod.splits sum.splits option.splits)

lemma find_trigger_index:
  "t_index (fst (snd (find_trigger crud table props (t, w)))) = t_index t"
  by (simp add: find_trigger_def useMethod_trigger_def Let_def
      split: prod.splits sum.splits option.splits)

lemma truthy_id_defined: "truthy_id r \<Longrightarrow> \<exists>i. id_field r = Some i"
  by (cases "id_field r") (simp_all add: truthy_id_def)

text \<open>
  Claim C10. When the backend call of \<^verbatim>\<open>create\<close>, \<^verbatim>\<open>update\<close>, \<^verbatim>\<open>remove\<close> or \<^verbatim>\<open>list\<close>
  rejects, the index after the trigger is the index before it. Conversely the index
  differs after a trigger only if the backend call resolved, for \<^verbatim>\<open>create\<close>, \<^verbatim>\<open>update\<close>
  and \<^verbatim>\<open>remove\<close> with an entity that has a defined identity, for \<^verbatim>\<open>list\<close> with an array.
\<close>

theorem failed_backend_call_leaves_index_unchanged:
  "(crud_create crud (with_table props table) w = (Inl err, w1) \<longrightarrow>
      t_index (fst (snd (create_trigger crud table props (t, w)))) = t_index t)
   \<and> (crud_update crud (with_table props table) w = (Inl err, w1) \<longrightarrow>
      t_index (fst (snd (update_trigger crud table props (t, w)))) = t_index t)
   \<and> (crud_remove crud (with_table props table) w = (Inl err, w1) \<longrightarrow>
      t_index (fst (snd (remove_trigger crud table props (t, w)))) = t_index t)
   \<and> (crud_list crud (with_table props table) w = (Inl err, w1) \<longrightarrow>
      t_index (fst (snd (list_trigger crud table props (t, w)))) = t_index t)
   \<and> (t_index (fst (snd (create_trigger crud table props (t, w)))) \<noteq> t_index t \<longrightarrow>
        (\<exists>r w2. crud_create crud (with_table props table) w = (Inr (Some r), w2)
           \<and> id_field r \<noteq> None))
   \<and> (t_index (fst (snd (update_trigger crud table props (t, w)))) \<noteq> t_index t \<longrightarrow>
        (\<exists>r w2. crud_update crud (with_table props table) w = (Inr (Some r), w2)
           \<and> id_field r \<noteq> None))
   \<and> (t_index (fst (snd (remove_trigger crud table props (t, w)))) \<noteq> t_index t \<longrightarrow>
        (\<exists>r w2. crud_remove crud (with_table props table) w = (Inr (Some r), w2)
           \<and> id_field r \<noteq> None))
   \<and> (t_index (fst (snd (list_trigger crud table props (t, w)))) \<noteq> t_index t \<longrightarrow>
        (\<exists>items w2. crud_list crud (with_table props table) w = (Inr (Some items), w2)))"
proof -
  have c: "t_index (fst (snd (create_trigger crud table props (t, w)))) \<noteq> t_index t \<longrightarrow>
        (\<exists>r w2. crud_create crud (with_table props table) w = (Inr (Some r), w2)
           \<and> id_field r \<noteq> None)"
    by (auto simp: create_trigger_index truthy_id_defined
        split: if_splits prod.splits sum.splits option.splits)
  have u: "t_index (fst (snd (update_trigger crud table props (t, w)))) \<noteq> t_index t \<longrightarrow>
        (\<exists>r w2. crud_update crud (with_table props table) w = (Inr (Some r), w2)
           \<and> id_field r \<noteq> None)"
    by (auto simp: update_trigger_index truthy_id_defined
        split: if_splits prod.splits sum.splits option.splits)
  have r: "t_index (fst (snd (remove_trigger crud table props (t, w)))) \<noteq> t_index t \<longrightarrow>
        (\<exists>r w2. crud_remove crud (with_table props table) w = (Inr (Some r), w2)
           \<and> id_field r \<noteq> None)"
    by (auto simp: remove_trigger_index truthy_id_defined
        split: if_splits prod.splits sum.splits option.splits)
  have l: "t_index (fst (snd (list_trigger crud table props (t, w)))) \<noteq> t_index t \<longrightarrow>
        (\<exists>items w2. crud_list crud (with_table props table) w = (Inr (Some items), w2))"
    by (auto simp: list_trigger_index
        split: if_splits prod.splits sum.splits option.splits)
  show ?thesis
    using c u r l
    by (simp add: create_trigger_index update_trigger_index remove_trigger_index
        list_trigger_index)
qed

theorem failed_backend_call_leaves_index_unchanged_witness:
  "crud_create
      \<lparr>crud_find = \<lambda>p w. (Inr None, w), crud_create = \<lambda>p w. (Inl ''Network error'', w),
        crud_update = \<lambda>p w. (Inr (Some \<lparr>id_field = Some ''1'', attrs = ''Johnny''\<rparr>), w),
        crud_remove = \<lambda>p w. (Inr None, w), crud_list = \<lambda>p w. (Inr None, w)\<rparr>
      (with_table [(''data'', JOther ''Bob'')] ''users'') () = (Inl ''Network error'', ())
   \<and> create_trigger
      \<lparr>crud_find = \<lambda>p w. (Inr None, w), crud_create = \<lambda>p w. (Inl ''Network error'', w),
        crud_update = \<lambda>p w. (Inr (Some \<lparr>id_field = Some ''1'', attrs = ''Johnny''\<rparr>), w),
        crud_remove = \<lambda>p w. (Inr None, w), crud_list = \<lambda>p w. (Inr None, w)\<rparr>
      ''users'' [(''data'', JOther ''Bob'')]
      (useTableProvider_init (Some [(''1'', \<lparr>id_field = Some ''1'', attrs = ''John''\<rparr>)]), ())
     = (Inl ''Network error'',
        \<lparr>t_index = [(''1'', \<lparr>id_field = Some ''1'', attrs = ''John''\<rparr>)],
         t_find = useMethod_init,
         t_create = \<lparr>loading = False, error = Some ''Network error'', result = None\<rparr>,
         t_update = useMethod_init, t_remove = useMethod_init, t_list = useMethod_init\<rparr>, ())
   \<and> t_index (fst (snd (update_trigger
      \<lparr>crud_find = \<lambda>p w. (Inr None, w), crud_create = \<lambda>p w. (Inl ''Network error'', w),
        crud_update = \<lambda>p w. (Inr (Some \<lparr>id_field = Some ''1'', attrs = ''Johnny''\<rparr>), w),
        crud_remove = \<lambda>p w. (Inr None, w), crud_list = \<lambda>p w. (Inr None, w)\<rparr>
      ''users'' [(''data'', JOther ''Bob'')]
      (useTableProvider_init (Some [(''1'', \<lparr>id_field = Some ''1'', attrs = ''John''\<rparr>)])
         :: (string, string) table_state, ()))))
     = [(''1'', \<lparr>id_field = Some ''1'', attrs = ''Johnny''\<rparr>)]
   \<and> t_index (fst (snd (update_trigger
      \<lparr>crud_find = \<lambda>p w. (Inr None, w), crud_create = \<lambda>p w. (Inl ''Network error'', w),
        crud_update = \<lambda>p w. (Inr (Some \<lparr>id_field = Some ''1'', attrs = ''Johnny''\<rparr>), w),
        crud_remove = \<lambda>p w. (Inr None, w), crud_list = \<lambda>p w. (Inr None, w)\<rparr>
      ''users'' [(''data'', JOther ''Bob'')]
      (useTableProvider_init (Some [(''1'', \<lparr>id_field = Some ''1'', attrs = ''John''\<rparr>)])
         :: (string, string) table_state, ()))))
     \<noteq> t_index (useTableProvider_init
           (Some [(''1'', \<lparr>id_field = Some ''1'', attrs = ''John''\<rparr>)])
         :: (string, string) table_state)"
  using failed_backend_call_leaves_index_unchanged [where crud = "\<lparr>crud_find = \<lambda>p w. (Inr None, w), crud_create = \<lambda>p w. (Inl ''Network error'', w),
        crud_update = \<lambda>p w. (Inr (Some \<lparr>id_field = Some ''1'', attrs = ''Johnny''\<rparr>), w),
        crud_remove = \<lambda>p w. (Inr None, w), crud_list = \<lambda>p w. (Inr None, w)\<rparr>"
      and props = "[(''data'', JOther ''Bob'')]" and table = "''users''" and w = "()"
      and err = "''Network error''" and ?w1.0 = "()"
      and t = "useTableProvider_init (Some [(''1'', \<lparr>id_field = Some ''1'', attrs = ''John''\<rparr>)])"]
  by (simp add: create_trigger_def createWithIndex_def update_trigger_def updateWithIndex_def
      useMethod_trigger_def useMethod_before_def useTableProvider_init_def useMethod_init_def
      truthy_id_def useIndex_set_single key_of_def)

section \<open>Properties of the accessors\<close>

text \<open>
  With no provider of its context around the calling component, \<^verbatim>\<open>useFields\<close> and
  \<^verbatim>\<open>useForm\<close> raise the error that names the missing provider; the accessor made by
  \<^verbatim>\<open>createContextFromHook\<close> returns \<^verbatim>\<open>undefined\<close>.
\<close>

lemma useFields_outside:
  "map_of enclosing Context = None \<Longrightarrow>
     useFields Context enclosing = Inl ''useFields must be used within a FieldsProvider''"
  by (simp add: useFields_def React_useContext_def)

lemma useForm_outside:
  "map_of enclosing FormReactContext = None \<Longrightarrow>
     useForm FormReactContext enclosing = Inl ''useForm must be used within a FormProvider''"
  by (simp add: useForm_def React_useContext_def)

lemma createContextFromHook_useContext_outside:
  "map_of enclosing Context = None \<Longrightarrow>
     createContextFromHook_useContext Context enclosing = Inr None"
  by (simp add: createContextFromHook_useContext_def React_useContext_def)

text \<open>
  Claim C1. The claim holds for \<^verbatim>\<open>useFields\<close> and \<^verbatim>\<open>useForm\<close> and fails for the accessor
  of \<^verbatim>\<open>createContextFromHook\<close>: called with no provider at all, or inside a provider of
  another context only, it returns \<^verbatim>\<open>undefined\<close> and raises nothing.
\<close>

theorem createContextFromHook_useContext_outside_provider:
  "createContextFromHook_useContext (0::nat) ([] :: (nat, string) providers) = Inr None
   \<and> createContextFromHook_useContext (0::nat) [(1, Some ''unrelated'')] = Inr None"
  by (simp add: createContextFromHook_useContext_def React_useContext_def)

end
